theory Spec2Isabelle
  imports Complex_Main
begin

section \<open>bayeslite \<open>math_util\<close>: continued fractions, series and incomplete gamma\<close>

text \<open>
  This theory embeds \<^verbatim>\<open>src/math_util.py\<close>. Python floats are modelled by
  \<^typ>\<open>real\<close> with exact arithmetic: rounding, overflow, infinities and NaN are outside
  the model. Everything that depends on values only through comparisons and on the
  control flow (branch selection, assertions, delegation, generator protocol) is modelled
  as written. The closed theorems that exhibit a failure use integers, halves and powers
  of two as inputs, on which binary64 arithmetic is exact too.
\<close>

subsection \<open>Module constants\<close>

text \<open>
  The module probes the float format when it is loaded: \<^verbatim>\<open>EMAX\<close> is raised while
  \<^verbatim>\<open>ldexp(1., EMAX + 1)\<close> does not overflow, \<^verbatim>\<open>EPSILON\<close> is halved while
  \<^verbatim>\<open>1. + EPSILON/2.\<close> differs from \<^verbatim>\<open>1.\<close>. On IEEE 754 binary64, the float of
  CPython, the two loops end with 1023 and \<open>2\<^sup>-\<^sup>5\<^sup>2\<close>; these values are taken here.
  \<^verbatim>\<open>EPSINV\<close> and \<^verbatim>\<open>MAXLOG\<close> are computed from them as the source does.
\<close>

definition EMAX :: nat where
  "EMAX = 1023"

definition EPSILON :: real where
  "EPSILON = 1 / 2 ^ 52"

definition EPSINV :: real where
  "EPSINV = 1 / EPSILON"

definition MAXLOG :: real where
  "MAXLOG = ln 2 + ln (2 ^ EMAX)"

subsection \<open>Exceptions and the generator protocol\<close>

datatype error = AssertionError | ZeroDivisionError | StopIteration | TypeError

text \<open>
  A Python iterator is a state together with its \<^verbatim>\<open>next\<close>: one call yields a value and
  moves to a new state, signals exhaustion, or raises.
\<close>

datatype ('a, 's) step = Yield 'a 's | Stop | Raise error

text \<open>\<^verbatim>\<open>iter(xs)\<close> for a list: the state is what is left of the list.\<close>

fun list_next :: "'a list \<Rightarrow> ('a, 'a list) step" where
  "list_next [] = Stop"
| "list_next (x # xs) = Yield x xs"

text \<open>
  The first \<open>k\<close> values a generator yields (fewer when it stops or raises before): the
  observation the statements about generated sequences are made on.
\<close>

fun gen_take :: "nat \<Rightarrow> ('s \<Rightarrow> ('a, 's) step) \<Rightarrow> 's \<Rightarrow> 'a list" where
  "gen_take 0 nxt st = []"
| "gen_take (Suc k) nxt st =
     (case nxt st of
        Yield y st' \<Rightarrow> y # gen_take k nxt st'
      | Stop \<Rightarrow> []
      | Raise e \<Rightarrow> [])"

text \<open>Float division: Python raises on a zero divisor.\<close>

definition fdiv :: "real \<Rightarrow> real \<Rightarrow> error + real" where
  "fdiv a b = (if b = 0 then Inl ZeroDivisionError else Inr (a / b))"

subsection \<open>\<^verbatim>\<open>relerr\<close>\<close>

text \<open>\<^verbatim>\<open>return abs((actual - expected)/expected)\<close>\<close>

definition relerr :: "real \<Rightarrow> real \<Rightarrow> error + real" where
  "relerr expected actual =
     (case fdiv (actual - expected) expected of
        Inl e \<Rightarrow> Inl e
      | Inr r \<Rightarrow> Inr \<bar>r\<bar>)"

subsection \<open>\<^verbatim>\<open>continuants\<close>\<close>

text \<open>
  The generator's locals between two yields are the tuple \<open>(p0, q0, p, q)\<close>; it starts
  from \<open>(1, 0, 0, 1)\<close>. One turn of the loop body is the simultaneous assignment
  (\<open>recurrence\<close>), the overflow guard (\<open>rescale\<close>), then \<^verbatim>\<open>assert q != 0\<close> and the
  yield.
\<close>

type_synonym cstate = "real \<times> real \<times> real \<times> real"

definition continuants_init :: cstate where
  "continuants_init = (1, 0, 0, 1)"

fun recurrence :: "cstate \<Rightarrow> real \<times> real \<Rightarrow> cstate" where
  "recurrence (p0, q0, p, q) (n, d) = (p, q, d * p + n * p0, d * q + n * q0)"

fun rescale :: "cstate \<Rightarrow> cstate" where
  "rescale (p0, q0, p, q) =
     (if p \<ge> EPSINV \<or> q \<ge> EPSINV
      then (p0 * EPSILON, q0 * EPSILON, p * EPSILON, q * EPSILON)
      else (p0, q0, p, q))"

fun continuants_yield :: "cstate \<Rightarrow> 's \<Rightarrow> (real \<times> real, cstate \<times> 's) step" where
  "continuants_yield (p0, q0, p, q) src =
     (if q = 0 then Raise AssertionError else Yield (p, q) ((p0, q0, p, q), src))"

fun continuants_next ::
  "('s \<Rightarrow> (real \<times> real, 's) step) \<Rightarrow> cstate \<times> 's \<Rightarrow> (real \<times> real, cstate \<times> 's) step"
where
  "continuants_next contfrac (st, src) =
     (case contfrac src of
        Stop \<Rightarrow> Stop
      | Raise e \<Rightarrow> Raise e
      | Yield t src' \<Rightarrow> continuants_yield (rescale (recurrence st t)) src')"

text \<open>
  The continuants as the specification words them, for comparison with the generator:
  the three-term recurrence alone, from the previous pair \<open>(p0, q0)\<close> and the current
  pair \<open>(p, q)\<close>, with no overflow guard and no assertion.
\<close>

fun continuants_spec :: "cstate \<Rightarrow> (real \<times> real) list \<Rightarrow> (real \<times> real) list" where
  "continuants_spec st [] = []"
| "continuants_spec (p0, q0, p, q) ((n, d) # ts) =
     (d * p + n * p0, d * q + n * q0)
       # continuants_spec (p, q, d * p + n * p0, d * q + n * q0) ts"

subsection \<open>\<^verbatim>\<open>convergents\<close>\<close>

text \<open>
  The places where the generator can be suspended: before its first \<^verbatim>\<open>next\<close>
  (\<open>CvStart\<close>), at a yield of a ratio with the continuant \<open>(p0, q0)\<close> it retains
  (\<open>CvLoop\<close>, holding the continuants generator \<open>cs\<close>), and at the yield of the final
  \<^verbatim>\<open>while True\<close> loop (\<open>CvConst\<close>), which no longer holds \<open>cs\<close>. A StopIteration of
  \<^verbatim>\<open>cs.next()\<close> ends the generator; the \<^verbatim>\<open>for\<close> loop ends on exhaustion of \<open>cs\<close> or on
  the \<^verbatim>\<open>break\<close>, and both continue at \<^verbatim>\<open>c = p0/q0\<close>.
\<close>

datatype 's cv_state =
  CvStart 's
| CvLoop "cstate \<times> 's" real real
| CvConst real

definition convergents_tail :: "real \<Rightarrow> real \<Rightarrow> (real, 's cv_state) step" where
  "convergents_tail p0 q0 =
     (case fdiv p0 q0 of
        Inl e \<Rightarrow> Raise e
      | Inr c \<Rightarrow> Yield c (CvConst c))"

fun convergents_next ::
  "('s \<Rightarrow> (real \<times> real, 's) step) \<Rightarrow> 's cv_state \<Rightarrow> (real, 's cv_state) step"
where
  "convergents_next contfrac (CvStart src) =
     (case continuants_next contfrac (continuants_init, src) of
        Stop \<Rightarrow> Stop
      | Raise e \<Rightarrow> Raise e
      | Yield (p0, q0) cs \<Rightarrow>
          (case fdiv p0 q0 of
             Inl e \<Rightarrow> Raise e
           | Inr c \<Rightarrow> Yield c (CvLoop cs p0 q0)))"
| "convergents_next contfrac (CvLoop cs p0 q0) =
     (case continuants_next contfrac cs of
        Stop \<Rightarrow> convergents_tail p0 q0
      | Raise e \<Rightarrow> Raise e
      | Yield (p, q) cs' \<Rightarrow>
          if p = 0 then convergents_tail p0 q0
          else (case fdiv p q of
                  Inl e \<Rightarrow> Raise e
                | Inr c \<Rightarrow> Yield c (CvLoop cs' p q)))"
| "convergents_next contfrac (CvConst c) = Yield c (CvConst c)"

subsection \<open>\<^verbatim>\<open>abs_summation\<close> and \<^verbatim>\<open>limit\<close>\<close>

text \<open>
  Both loops may run forever on an infinite sequence. The first argument is fuel: the
  number of turns of the \<^verbatim>\<open>for\<close> loop the call may take, \<open>None\<close> when it is used up.
  A call that returns gives \<open>Some (Inr v)\<close>, where \<open>v = None\<close> is Python's \<^verbatim>\<open>None\<close>
  (the function body ends without a \<^verbatim>\<open>return\<close>); a call that raises gives
  \<open>Some (Inl e)\<close>. \<^verbatim>\<open>sequence.next()\<close> on an exhausted iterator raises StopIteration
  out of the function.
\<close>

fun abs_summation_loop ::
  "nat \<Rightarrow> ('s \<Rightarrow> (real, 's) step) \<Rightarrow> real \<Rightarrow> 's \<Rightarrow> (error + real option) option"
where
  "abs_summation_loop 0 nxt s st = None"
| "abs_summation_loop (Suc fuel) nxt s st =
     (case nxt st of
        Stop \<Rightarrow> Some (Inr None)
      | Raise e \<Rightarrow> Some (Inl e)
      | Yield t st' \<Rightarrow>
          if \<not> 0 \<le> t then Some (Inl AssertionError)
          else (case fdiv t (s + t) of
                  Inl e \<Rightarrow> Some (Inl e)
                | Inr r \<Rightarrow>
                    if r \<le> EPSILON then Some (Inr (Some (s + t)))
                    else abs_summation_loop fuel nxt (s + t) st'))"

definition abs_summation ::
  "nat \<Rightarrow> ('s \<Rightarrow> (real, 's) step) \<Rightarrow> 's \<Rightarrow> (error + real option) option"
where
  "abs_summation fuel nxt st =
     (case nxt st of
        Stop \<Rightarrow> Some (Inl StopIteration)
      | Raise e \<Rightarrow> Some (Inl e)
      | Yield s st' \<Rightarrow> abs_summation_loop fuel nxt s st')"

fun limit_loop ::
  "nat \<Rightarrow> ('s \<Rightarrow> (real, 's) step) \<Rightarrow> real \<Rightarrow> 's \<Rightarrow> (error + real option) option"
where
  "limit_loop 0 nxt c0 st = None"
| "limit_loop (Suc fuel) nxt c0 st =
     (case nxt st of
        Stop \<Rightarrow> Some (Inr None)
      | Raise e \<Rightarrow> Some (Inl e)
      | Yield c st' \<Rightarrow>
          if c = 0 then Some (Inr (Some c))
          else (case relerr c0 c of
                  Inl e \<Rightarrow> Some (Inl e)
                | Inr r \<Rightarrow>
                    if r \<le> EPSILON then Some (Inr (Some c))
                    else limit_loop fuel nxt c st'))"

definition limit ::
  "nat \<Rightarrow> ('s \<Rightarrow> (real, 's) step) \<Rightarrow> 's \<Rightarrow> (error + real option) option"
where
  "limit fuel nxt st =
     (case nxt st of
        Stop \<Rightarrow> Some (Inl StopIteration)
      | Raise e \<Rightarrow> Some (Inl e)
      | Yield c0 st' \<Rightarrow> limit_loop fuel nxt c0 st')"

subsection \<open>The incomplete gamma functions\<close>

text \<open>
  \<^verbatim>\<open>math.lgamma\<close> is a function of the C library: it is a parameter \<open>lgamma\<close> of the
  model. \<^verbatim>\<open>math.log(x)\<close> is reached with \<open>x > 0\<close> only, where it is \<open>ln x\<close>.
\<close>

datatype seq_state = SeqStart | SeqAt nat real

text \<open>
  The series terms of \<^verbatim>\<open>gamma_below\<close>: \<^verbatim>\<open>seq()\<close> yields \<open>t\<close>, and on the next call
  does \<^verbatim>\<open>k += 1; t *= x/(a + k)\<close> before it yields again.
\<close>

fun seq_next :: "real \<Rightarrow> real \<Rightarrow> seq_state \<Rightarrow> (real, seq_state) step" where
  "seq_next a x SeqStart = Yield 1 (SeqAt 0 1)"
| "seq_next a x (SeqAt k t) =
     (case fdiv x (a + real (k + 1)) of
        Inl e \<Rightarrow> Raise e
      | Inr r \<Rightarrow> Yield (t * r) (SeqAt (k + 1) (t * r)))"

text \<open>
  The value of the \<open>k\<close>-th term of the series, \<open>x\<^sup>k / ((a + 1) \<dots> (a + k))\<close>, by the
  recurrence of \<^verbatim>\<open>seq()\<close>: what the statements about the loop over the series are
  made on (\<open>seq_yields_terms\<close> below relates it to the generator).
\<close>

fun seq_term :: "real \<Rightarrow> real \<Rightarrow> nat \<Rightarrow> real" where
  "seq_term a x 0 = 1"
| "seq_term a x (Suc k) = seq_term a x k * (x / (a + real (k + 1)))"

text \<open>
  The terms of the continued fraction of \<^verbatim>\<open>gamma_above\<close>: \<open>(1, x)\<close> first, then for
  \<open>i = 0, 1, 2, ...\<close> the term \<open>(i//2 + 1 - a, 1)\<close> when \<open>i\<close> is even and
  \<open>((i + 1)//2, x)\<close> when it is odd.
\<close>

datatype cf_state = CfStart | CfFirst | CfLoop nat

definition contfrac_term :: "real \<Rightarrow> real \<Rightarrow> nat \<Rightarrow> real \<times> real" where
  "contfrac_term a x i =
     (if i mod 2 = 0 then (real (i div 2) + 1 - a, 1) else (real ((i + 1) div 2), x))"

fun contfrac_next :: "real \<Rightarrow> real \<Rightarrow> cf_state \<Rightarrow> (real \<times> real, cf_state) step" where
  "contfrac_next a x CfStart = Yield (1, x) CfFirst"
| "contfrac_next a x CfFirst = Yield (contfrac_term a x 0) (CfLoop 0)"
| "contfrac_next a x (CfLoop i) = Yield (contfrac_term a x (i + 1)) (CfLoop (i + 1))"

text \<open>
  The prefactor exponent \<^verbatim>\<open>w = a*math.log(x) - x - math.lgamma(a)\<close> of both
  functions.
\<close>

definition prefactor_exponent :: "(real \<Rightarrow> real) \<Rightarrow> real \<Rightarrow> real \<Rightarrow> real" where
  "prefactor_exponent lgamma a x = a * ln x - x - lgamma a"

text \<open>
  Lines 186 to 200: what \<^verbatim>\<open>gamma_below\<close> does after its two early returns. The
  product \<^verbatim>\<open>(m/a)*abs_summation(seq())\<close> raises TypeError on a \<^verbatim>\<open>None\<close>.
\<close>

definition gamma_below_series ::
  "(real \<Rightarrow> real) \<Rightarrow> nat \<Rightarrow> real \<Rightarrow> real \<Rightarrow> (error + real) option"
where
  "gamma_below_series lgamma fuel a x =
     (let w = prefactor_exponent lgamma a x in
      if w < - MAXLOG then Some (Inr 0)
      else
        let m = exp w in
        (case fdiv m a of
           Inl e \<Rightarrow> Some (Inl e)
         | Inr r \<Rightarrow>
             (case abs_summation fuel (seq_next a x) SeqStart of
                None \<Rightarrow> None
              | Some (Inl e) \<Rightarrow> Some (Inl e)
              | Some (Inr None) \<Rightarrow> Some (Inl TypeError)
              | Some (Inr (Some s)) \<Rightarrow> Some (Inr (r * s)))))"

text \<open>Lines 238 to 254: what \<^verbatim>\<open>gamma_above\<close> does after its early return.\<close>

definition gamma_above_contfrac ::
  "(real \<Rightarrow> real) \<Rightarrow> nat \<Rightarrow> real \<Rightarrow> real \<Rightarrow> (error + real) option"
where
  "gamma_above_contfrac lgamma fuel a x =
     (let w = prefactor_exponent lgamma a x in
      if w < - MAXLOG then Some (Inr 0)
      else
        let m = exp w in
        (case limit fuel (convergents_next (contfrac_next a x)) (CvStart CfStart) of
           None \<Rightarrow> None
         | Some (Inl e) \<Rightarrow> Some (Inl e)
         | Some (Inr None) \<Rightarrow> Some (Inl TypeError)
         | Some (Inr (Some l)) \<Rightarrow> Some (Inr (m * l))))"

text \<open>\<^verbatim>\<open>1. - f(a, x)\<close>: an exception of the call propagates.\<close>

definition one_minus :: "(error + real) option \<Rightarrow> (error + real) option" where
  "one_minus r =
     (case r of
        None \<Rightarrow> None
      | Some (Inl e) \<Rightarrow> Some (Inl e)
      | Some (Inr g) \<Rightarrow> Some (Inr (1 - g)))"

text \<open>
  The two functions as the source has them, each calling the other. The recursion ends
  because the guard of a delegation excludes the guard of the delegation in the callee.
\<close>

function gamma_below :: "(real \<Rightarrow> real) \<Rightarrow> nat \<Rightarrow> real \<Rightarrow> real \<Rightarrow> (error + real) option"
  and gamma_above :: "(real \<Rightarrow> real) \<Rightarrow> nat \<Rightarrow> real \<Rightarrow> real \<Rightarrow> (error + real) option"
where
  "gamma_below lgamma fuel a x =
     (if \<not> 0 < a then Some (Inl AssertionError)
      else if \<not> 0 \<le> x then Some (Inl AssertionError)
      else if x = 0 then Some (Inr 0)
      else if x > max 1 a then one_minus (gamma_above lgamma fuel a x)
      else gamma_below_series lgamma fuel a x)"
| "gamma_above lgamma fuel a x =
     (if \<not> 0 < a then Some (Inl AssertionError)
      else if \<not> 0 \<le> x then Some (Inl AssertionError)
      else if x \<le> max 1 a then one_minus (gamma_below lgamma fuel a x)
      else gamma_above_contfrac lgamma fuel a x)"
  by pat_completeness auto
termination
  by (relation "measure (\<lambda>c. case c of
        Inl (lgamma, fuel, a, x) \<Rightarrow> if x > max 1 a then 1 else 0
      | Inr (lgamma, fuel, a, x) \<Rightarrow> if x \<le> max 1 a then 1 else (0::nat))") auto

declare gamma_below.simps [simp del] gamma_above.simps [simp del]

section \<open>Properties\<close>

subsection \<open>\<^verbatim>\<open>relerr\<close>\<close>

text \<open>
  C5 as stated fails: \<^verbatim>\<open>relerr\<close> takes the absolute value of the whole quotient, so for
  a negative \<open>expected\<close> it does not return \<open>|actual - expected| / expected\<close>. At
  \<open>expected = -2\<close>, \<open>actual = -1\<close> the code returns \<open>1/2\<close>, the stated formula gives
  \<open>-1/2\<close>.
\<close>

theorem relerr_signed_counterexample:
  "relerr (- 2) (- 1) = Inr (1 / 2)
   \<and> relerr (- 2) (- 1) \<noteq> Inr (\<bar>(- 1) - (- 2)\<bar> / (- 2))"
  by (simp add: relerr_def fdiv_def)

text \<open>
  C5, amended: for a nonzero \<open>expected\<close>, \<^verbatim>\<open>relerr\<close> returns
  \<open>|actual - expected| / |expected|\<close>, which is \<open>|actual - expected| / expected\<close>
  when \<open>expected\<close> is positive; for \<open>expected = 0\<close> it raises ZeroDivisionError;
  \<open>relerr(2.0, 2.0002)\<close> is \<open>0.0001\<close>.
\<close>

theorem relerr_value:
  "relerr expected actual =
     (if expected = 0 then Inl ZeroDivisionError
      else Inr (\<bar>actual - expected\<bar> / \<bar>expected\<bar>))
   \<and> relerr 2 (20002 / 10000) = Inr (1 / 10000)"
  by (simp add: relerr_def fdiv_def)

subsection \<open>Generators and constants\<close>

lemma gen_take_Suc_Cons:
  "gen_take (Suc k) nxt st = y # ys \<Longrightarrow> \<exists>st'. nxt st = Yield y st' \<and> gen_take k nxt st' = ys"
  by (auto split: step.splits)

lemma EPSINV_value: "EPSINV = 4503599627370496"
  by (simp add: EPSINV_def EPSILON_def)

lemma EPSILON_value: "EPSILON = 1 / 4503599627370496"
  by (simp add: EPSILON_def)

subsection \<open>\<^verbatim>\<open>continuants\<close>\<close>

lemma continuants_refine:
  "gen_take (length ts) contfrac src = ts \<Longrightarrow>
   (\<forall>(pp, qq) \<in> set (continuants_spec st ts). pp < EPSINV \<and> qq < EPSINV \<and> qq \<noteq> 0) \<Longrightarrow>
   gen_take (length ts) (continuants_next contfrac) (st, src) = continuants_spec st ts"
proof (induction ts arbitrary: st src)
  case Nil
  then show ?case by simp
next
  case (Cons t ts)
  obtain n d where t: "t = (n, d)" by (cases t)
  obtain p0 q0 p q where st: "st = (p0, q0, p, q)" by (cases st) auto
  from Cons.prems(1) obtain src' where
    nx: "contfrac src = Yield t src'" and rest: "gen_take (length ts) contfrac src' = ts"
    using gen_take_Suc_Cons[of "length ts" contfrac src t ts] by auto
  let ?st' = "(p, q, d * p + n * p0, d * q + n * q0)"
  from Cons.prems(2) have
    now: "d * p + n * p0 < EPSINV \<and> d * q + n * q0 < EPSINV \<and> d * q + n * q0 \<noteq> 0"
    and later: "\<forall>(pp, qq) \<in> set (continuants_spec ?st' ts). pp < EPSINV \<and> qq < EPSINV \<and> qq \<noteq> 0"
    by (simp_all add: t st)
  have step: "continuants_next contfrac (st, src) = Yield (d * p + n * p0, d * q + n * q0) (?st', src')"
    using now by (simp add: nx t st not_le)
  have spec: "continuants_spec st (t # ts) =
      (d * p + n * p0, d * q + n * q0) # continuants_spec ?st' ts"
    by (simp add: t st)
  show ?case
    by (simp only: length_Cons gen_take.simps step step.case spec Cons.IH[OF rest later])
qed

text \<open>
  C6: from the seed \<open>(1, 0)\<close>, \<open>(0, 1)\<close>, a term \<open>(n, d)\<close> consumed with previous pair
  \<open>(p0, q0)\<close> and current pair \<open>(p, q)\<close> gives the new pair
  \<open>(d*p + n*p0, d*q + n*q0)\<close> and makes \<open>(p, q)\<close> the previous pair: this is the
  tuple the overflow guard and the yield then work on. As long as no value of the
  recurrence reaches \<open>EPSINV\<close> and no denominator is zero, the continuants yielded for
  the terms \<open>ts\<close> of any source are those of the specification's recurrence, and the
  first one is \<open>(n0, d0)\<close>.
\<close>

theorem continuants_recurrence:
  "(contfrac src = Yield (n, d) src' \<longrightarrow>
      continuants_next contfrac ((p0, q0, p, q), src) =
        continuants_yield (rescale (p, q, d * p + n * p0, d * q + n * q0)) src')
   \<and> (gen_take (length ts) contfrac src = ts
        \<and> (\<forall>(pp, qq) \<in> set (continuants_spec (1, 0, 0, 1) ts).
              pp < EPSINV \<and> qq < EPSINV \<and> qq \<noteq> 0) \<longrightarrow>
      gen_take (length ts) (continuants_next contfrac) (continuants_init, src) =
        continuants_spec (1, 0, 0, 1) ts)
   \<and> (contfrac src = Yield (n0, d0) src' \<and> n0 < EPSINV \<and> d0 < EPSINV \<and> d0 \<noteq> 0 \<longrightarrow>
      continuants_next contfrac (continuants_init, src) =
        Yield (n0, d0) ((0, 1, n0, d0), src'))"
proof (intro conjI impI)
  assume "contfrac src = Yield (n, d) src'"
  then show "continuants_next contfrac ((p0, q0, p, q), src) =
        continuants_yield (rescale (p, q, d * p + n * p0, d * q + n * q0)) src'"
    by simp
next
  assume "gen_take (length ts) contfrac src = ts
        \<and> (\<forall>(pp, qq) \<in> set (continuants_spec (1, 0, 0, 1) ts).
              pp < EPSINV \<and> qq < EPSINV \<and> qq \<noteq> 0)"
  then show "gen_take (length ts) (continuants_next contfrac) (continuants_init, src) =
        continuants_spec (1, 0, 0, 1) ts"
    using continuants_refine[of ts contfrac src "(1, 0, 0, 1)"]
    by (simp add: continuants_init_def)
next
  assume "contfrac src = Yield (n0, d0) src' \<and> n0 < EPSINV \<and> d0 < EPSINV \<and> d0 \<noteq> 0"
  then show "continuants_next contfrac (continuants_init, src) =
        Yield (n0, d0) ((0, 1, n0, d0), src')"
    by (simp add: continuants_init_def not_le)
qed

theorem continuants_recurrence_witness:
  "continuants_next list_next ((1, 0, 0, 1), [(1, 2), (3, 4)]) =
     continuants_yield (rescale (0, 1, 1, 2)) [(3, 4)]
   \<and> gen_take 2 (continuants_next list_next) (continuants_init, [(1, 2), (3, 4)]) =
       [(1, 2), (4, 11)]
   \<and> continuants_next list_next (continuants_init, [(1, 2), (3, 4)]) =
       Yield (1, 2) ((0, 1, 1, 2), [(3, 4)])"
  using continuants_recurrence[of list_next "[(1, 2), (3, 4)]" 1 2 "[(3, 4)]" 1 0 0 1
          "[(1, 2), (3, 4)]" 1 2]
  by (simp add: EPSINV_value numeral_2_eq_2)

lemma rescale_nonnegative:
  "0 \<le> p \<Longrightarrow> 0 \<le> q \<Longrightarrow>
   rescale (p0, q0, p, q) =
     (if EPSINV \<le> \<bar>p\<bar> \<or> EPSINV \<le> \<bar>q\<bar>
      then (p0 * EPSILON, q0 * EPSILON, p * EPSILON, q * EPSILON)
      else (p0, q0, p, q))"
  by simp

lemma rescale_small: "\<bar>p\<bar> < EPSINV \<Longrightarrow> \<bar>q\<bar> < EPSINV \<Longrightarrow> rescale (p0, q0, p, q) = (p0, q0, p, q)"
  by auto

text \<open>
  C7 fails on the code: the guard is \<^verbatim>\<open>p >= EPSINV or q >= EPSINV\<close>, on the signed
  values, while the docstring of \<^verbatim>\<open>continuants\<close> speaks of the numerator or denominator
  growing large in magnitude. For the first term \<open>(-2\<^sup>5\<^sup>2, 1)\<close> the newest numerator
  has magnitude \<open>EPSINV\<close> and the continuant is yielded as it is, not multiplied by
  \<open>EPSILON\<close>.
\<close>

theorem continuants_negative_not_rescaled:
  "EPSINV \<le> \<bar>- (2 ^ 52) :: real\<bar>
   \<and> continuants_next list_next (continuants_init, [(- (2 ^ 52), 1)]) =
       Yield (- (2 ^ 52), 1) ((0, 1, - (2 ^ 52), 1), [])"
  by (simp add: EPSINV_value continuants_init_def)

subsection \<open>\<^verbatim>\<open>convergents\<close>\<close>

lemma continuants_yield_nonzero:
  "continuants_next contfrac cst = Yield (pp, qq) cst' \<Longrightarrow> qq \<noteq> 0"
proof -
  assume a: "continuants_next contfrac cst = Yield (pp, qq) cst'"
  obtain st src where c: "cst = (st, src)" by (cases cst)
  from a c obtain t src' where y: "continuants_yield (rescale (recurrence st t)) src' = Yield (pp, qq) cst'"
    by (auto split: step.splits)
  obtain a0 b0 a1 b1 where r: "rescale (recurrence st t) = (a0, b0, a1, b1)"
    by (cases "rescale (recurrence st t)") auto
  from y r show ?thesis by (auto split: if_splits)
qed

lemma gen_take_const: "gen_take k (convergents_next contfrac) (CvConst c) = replicate k c"
  by (induction k) simp_all

lemma convergents_loop:
  "gen_take (Suc (length cs)) (continuants_next contfrac) cst = cs @ [(0, qz)] \<Longrightarrow>
   (\<forall>c \<in> set cs. fst c \<noteq> 0) \<Longrightarrow> q0 \<noteq> 0 \<Longrightarrow>
   gen_take k (convergents_next contfrac) (CvLoop cst p0 q0) =
     take k (map (\<lambda>(p, q). p / q) cs)
       @ replicate (k - length cs) ((\<lambda>(p, q). p / q) (last ((p0, q0) # cs)))"
proof (induction cs arbitrary: cst p0 q0 k)
  case Nil
  then obtain cst' where nx: "continuants_next contfrac cst = Yield (0, qz) cst'"
    using gen_take_Suc_Cons[of 0 "continuants_next contfrac" cst "(0, qz)" "[]"] by auto
  have st: "convergents_next contfrac (CvLoop cst p0 q0) = Yield (p0 / q0) (CvConst (p0 / q0))"
    using Nil.prems(3) by (simp add: nx convergents_tail_def fdiv_def)
  show ?case
    by (cases k) (simp_all add: st gen_take_const del: convergents_next.simps)
next
  case (Cons c cs)
  obtain p q where c: "c = (p, q)" by (cases c)
  from Cons.prems(1) obtain cst' where
    nx: "continuants_next contfrac cst = Yield (p, q) cst'"
    and rest: "gen_take (Suc (length cs)) (continuants_next contfrac) cst' = cs @ [(0, qz)]"
    using gen_take_Suc_Cons[of "Suc (length cs)" "continuants_next contfrac" cst c "cs @ [(0, qz)]"]
    by (auto simp add: c)
  have q: "q \<noteq> 0" using nx by (rule continuants_yield_nonzero)
  have p: "p \<noteq> 0" using Cons.prems(2) by (simp add: c)
  have nz: "\<forall>c \<in> set cs. fst c \<noteq> 0" using Cons.prems(2) by simp
  have st: "convergents_next contfrac (CvLoop cst p0 q0) = Yield (p / q) (CvLoop cst' p q)"
    using p q by (simp add: nx fdiv_def)
  show ?case
  proof (cases k)
    case 0
    then show ?thesis by simp
  next
    case (Suc k')
    show ?thesis
      using Cons.IH[OF rest nz q, of k' p] by (simp add: Suc st c del: convergents_next.simps)
  qed
qed


lemma convergents_prefix:
  "gen_take (length cs) (continuants_next contfrac) cst = cs \<Longrightarrow>
   (\<forall>c \<in> set cs. fst c \<noteq> 0) \<Longrightarrow>
   gen_take (length cs) (convergents_next contfrac) (CvLoop cst p0 q0) =
     map (\<lambda>(p, q). p / q) cs"
proof (induction cs arbitrary: cst p0 q0)
  case Nil
  show ?case by simp
next
  case (Cons c cs)
  obtain p q where c: "c = (p, q)" by (cases c)
  from Cons.prems(1) obtain cst' where
    nx: "continuants_next contfrac cst = Yield (p, q) cst'"
    and rest: "gen_take (length cs) (continuants_next contfrac) cst' = cs"
    using gen_take_Suc_Cons[of "length cs" "continuants_next contfrac" cst c cs]
    by (auto simp add: c)
  have q: "q \<noteq> 0" using nx by (rule continuants_yield_nonzero)
  have p: "p \<noteq> 0" using Cons.prems(2) by (simp add: c)
  have nz: "\<forall>c \<in> set cs. fst c \<noteq> 0" using Cons.prems(2) by simp
  have st: "convergents_next contfrac (CvLoop cst p0 q0) = Yield (p / q) (CvLoop cst' p q)"
    using p q by (simp add: nx fdiv_def)
  show ?case
    using Cons.IH[OF rest nz, of p q] by (simp add: st c del: convergents_next.simps)
qed

lemma convergents_first:
  "continuants_next contfrac (continuants_init, src) = Yield (p, q) cst \<Longrightarrow>
   convergents_next contfrac (CvStart src) = Yield (p / q) (CvLoop cst p q)"
  using continuants_yield_nonzero[of contfrac "(continuants_init, src)" p q cst]
  by (simp add: fdiv_def)

text \<open>
  C8: let the continuants of the term sequence start with \<open>c0\<close>, then \<open>cs\<close> with
  nonzero numerators, then a continuant with numerator zero. For every \<open>k\<close>, the first
  \<open>k\<close> convergents are the ratios of \<open>c0 # cs\<close> in order (the first one whatever its
  numerator), followed by the ratio of the last of them as often as \<open>k\<close> asks for;
  nothing after the zero numerator is looked at, since the hypothesis says nothing about
  the source beyond it. And while no zero numerator has come, the convergents are the
  ratios of the continuants.
\<close>

theorem convergents_sequence:
  "(gen_take (Suc (Suc (length cs))) (continuants_next contfrac) (continuants_init, src) =
        c0 # cs @ [(0, qz)]
      \<and> (\<forall>c \<in> set cs. fst c \<noteq> 0) \<longrightarrow>
    gen_take k (convergents_next contfrac) (CvStart src) =
      take k (map (\<lambda>(p, q). p / q) (c0 # cs))
        @ replicate (k - Suc (length cs)) ((\<lambda>(p, q). p / q) (last (c0 # cs))))
   \<and> (gen_take (Suc (length cs)) (continuants_next contfrac) (continuants_init, src) = c0 # cs
      \<and> (\<forall>c \<in> set cs. fst c \<noteq> 0) \<longrightarrow>
    gen_take (Suc (length cs)) (convergents_next contfrac) (CvStart src) =
      map (\<lambda>(p, q). p / q) (c0 # cs))"
proof (intro conjI impI)
  assume h: "gen_take (Suc (Suc (length cs))) (continuants_next contfrac) (continuants_init, src) =
        c0 # cs @ [(0, qz)] \<and> (\<forall>c \<in> set cs. fst c \<noteq> 0)"
  obtain p q where c0: "c0 = (p, q)" by (cases c0)
  from h obtain cst where
    nx: "continuants_next contfrac (continuants_init, src) = Yield (p, q) cst"
    and rest: "gen_take (Suc (length cs)) (continuants_next contfrac) cst = cs @ [(0, qz)]"
    using gen_take_Suc_Cons[of "Suc (length cs)" "continuants_next contfrac"
        "(continuants_init, src)" c0 "cs @ [(0, qz)]"]
    by (auto simp add: c0)
  have q: "q \<noteq> 0" using nx by (rule continuants_yield_nonzero)
  from h have nz: "\<forall>c \<in> set cs. fst c \<noteq> 0" by simp
  show "gen_take k (convergents_next contfrac) (CvStart src) =
      take k (map (\<lambda>(p, q). p / q) (c0 # cs))
        @ replicate (k - Suc (length cs)) ((\<lambda>(p, q). p / q) (last (c0 # cs)))"
  proof (cases k)
    case 0
    then show ?thesis by simp
  next
    case (Suc k')
    show ?thesis
      using convergents_loop[OF rest nz q, of k' p]
      by (simp add: Suc convergents_first[OF nx] c0 del: convergents_next.simps)
  qed
next
  assume h: "gen_take (Suc (length cs)) (continuants_next contfrac) (continuants_init, src) = c0 # cs
      \<and> (\<forall>c \<in> set cs. fst c \<noteq> 0)"
  obtain p q where c0: "c0 = (p, q)" by (cases c0)
  from h obtain cst where
    nx: "continuants_next contfrac (continuants_init, src) = Yield (p, q) cst"
    and rest: "gen_take (length cs) (continuants_next contfrac) cst = cs"
    using gen_take_Suc_Cons[of "length cs" "continuants_next contfrac"
        "(continuants_init, src)" c0 cs]
    by (auto simp add: c0)
  from h have nz: "\<forall>c \<in> set cs. fst c \<noteq> 0" by simp
  show "gen_take (Suc (length cs)) (convergents_next contfrac) (CvStart src) =
      map (\<lambda>(p, q). p / q) (c0 # cs)"
    using convergents_prefix[OF rest nz, of p q]
    by (simp add: convergents_first[OF nx] c0 del: convergents_next.simps)
qed

theorem convergents_sequence_witness:
  "gen_take 5 (convergents_next list_next) (CvStart [(1, 2), (3, 4), (- 4, 1), (5, 6)]) =
     [1 / 2, 4 / 11, 4 / 11, 4 / 11, 4 / 11]
   \<and> gen_take 2 (convergents_next list_next) (CvStart [(1, 2), (3, 4), (- 4, 1), (5, 6)]) =
     [1 / 2, 4 / 11]"
  using convergents_sequence[of "[(4, 11)]" list_next "[(1, 2), (3, 4), (- 4, 1), (5, 6)]"
      "(1, 2)" 3 5]
  by (simp add: EPSINV_value continuants_init_def eval_nat_numeral)

subsection \<open>\<^verbatim>\<open>abs_summation\<close> and \<^verbatim>\<open>limit\<close>\<close>

lemma abs_summation_loop_asserts:
  "nxt st = Yield t st' \<Longrightarrow> t < 0 \<Longrightarrow>
   abs_summation_loop (Suc fuel) nxt s st = Some (Inl AssertionError)"
  by simp

text \<open>
  C9 fails on the code: \<^verbatim>\<open>assert 0 <= t\<close> stands in the loop, and the first term is
  taken by \<^verbatim>\<open>s = sequence.next()\<close> before the loop, unchecked. On the sequence
  \<open>-1, 0.5\<close> the negative term is consumed, the sum becomes \<open>-0.5\<close>, the quotient
  \<open>0.5 / -0.5 = -1\<close> is below \<open>EPSILON\<close>, and the call returns \<open>-0.5\<close>.
\<close>

theorem abs_summation_negative_first:
  "abs_summation 1 list_next [- 1, 1 / 2] = Some (Inr (Some (- (1 / 2))))"
  by (simp add: abs_summation_def fdiv_def EPSILON_value)






subsection \<open>The incomplete gamma functions: delegation\<close>

lemma gamma_above_direct:
  "0 < a \<Longrightarrow> max 1 a < x \<Longrightarrow> gamma_above lg n a x = gamma_above_contfrac lg n a x"
  by (subst gamma_above.simps) (simp add: le_max_iff_disj)

lemma gamma_below_direct:
  "0 < a \<Longrightarrow> 0 \<le> x \<Longrightarrow> x \<le> max 1 a \<Longrightarrow>
   gamma_below lg n a x = (if x = 0 then Some (Inr 0) else gamma_below_series lg n a x)"
  by (subst gamma_below.simps) (auto simp add: le_max_iff_disj)




lemma MAXLOG_bound: "MAXLOG < 1024"
proof -
  have "MAXLOG = ln 2 + 1023 * ln 2"
    unfolding MAXLOG_def EMAX_def ln_realpow by simp
  then show ?thesis using ln_2_less_1 by simp
qed

lemma ln_5000: "ln (5000::real) < 13"
proof -
  have "ln (5000::real) < ln (2 ^ 13)" by (subst ln_less_cancel_iff) simp_all
  also have "\<dots> = 13 * ln 2" unfolding ln_realpow by simp
  also have "\<dots> < 13" using ln_2_less_1 by simp
  finally show ?thesis .
qed

lemma underflow_5000: "prefactor_exponent lg 1 5000 < - MAXLOG" if "lg 1 = 0"
  using MAXLOG_bound ln_5000 that by (simp add: prefactor_exponent_def)


subsection \<open>The series of \<^verbatim>\<open>gamma_below\<close> is summed in finitely many steps\<close>







lemma seq_yields_terms:
  "0 < a \<Longrightarrow> gen_take n (seq_next a x) (SeqAt k (seq_term a x k)) =
     map (seq_term a x) [Suc k ..< Suc k + n]"
proof (induction n arbitrary: k)
  case 0
  show ?case by simp
next
  case (Suc n)
  have "a + real (k + 1) \<noteq> 0" using Suc.prems by (simp add: add_pos_nonneg less_imp_neq[symmetric])
  then have nx: "seq_next a x (SeqAt k (seq_term a x k)) =
      Yield (seq_term a x (Suc k)) (SeqAt (Suc k) (seq_term a x (Suc k)))"
    by (simp add: fdiv_def)
  have "[Suc k ..< Suc k + Suc n] = Suc k # [Suc (Suc k) ..< Suc (Suc k) + n]"
    by (simp add: upt_conv_Cons)
  then show ?case
    using Suc.IH[OF Suc.prems, of "Suc k"]
    by (simp add: nx del: seq_next.simps seq_term.simps upt_Suc)
qed

subsection \<open>The incomplete gamma functions: claims\<close>



text \<open>
  C2: for every \<open>a > 0\<close>, \<open>gamma_below(a, 0)\<close> returns 0 by the early return, and
  \<open>gamma_above(a, 0)\<close> returns 1 by delegation, whatever the fuel.
\<close>

theorem gamma_at_zero:
  "0 < a \<Longrightarrow> gamma_below lg n a 0 = Some (Inr 0) \<and> gamma_above lg n a 0 = Some (Inr 1)"
  by (simp add: gamma_below.simps gamma_above.simps one_minus_def le_max_iff_disj)

theorem gamma_at_zero_witness:
  "gamma_below (\<lambda>_. 0) 0 1 0 = Some (Inr 0) \<and> gamma_above (\<lambda>_. 0) 0 1 0 = Some (Inr 1)"
  using gamma_at_zero[of 1 "\<lambda>_. 0" 0] by simp

text \<open>
  C3: in the branch \<open>x > max(1, a)\<close> of \<^verbatim>\<open>gamma_above\<close>, a prefactor exponent below
  \<open>-MAXLOG\<close> makes it return 0; the continued fraction is not evaluated, since the
  result is there with no fuel at all. With \<open>lgamma(1) = 0\<close>, \<open>gamma_above(1, 5000)\<close>
  returns 0 and \<open>gamma_below(1, 5000)\<close> returns 1.
\<close>

theorem gamma_above_underflow:
  "(0 < a \<and> max 1 a < x \<and> a * ln x - x - lg a < - MAXLOG
      \<longrightarrow> gamma_above lg 0 a x = Some (Inr 0) \<and> gamma_above lg n a x = Some (Inr 0))
   \<and> (lg 1 = 0 \<longrightarrow>
        gamma_above lg n 1 5000 = Some (Inr 0) \<and> gamma_below lg n 1 5000 = Some (Inr 1))"
proof (intro conjI impI)
  assume h: "0 < a \<and> max 1 a < x \<and> a * ln x - x - lg a < - MAXLOG"
  then show "gamma_above lg n a x = Some (Inr 0)"
    by (simp add: gamma_above_direct gamma_above_contfrac_def prefactor_exponent_def)
  from h show "gamma_above lg 0 a x = Some (Inr 0)"
    by (simp add: gamma_above_direct gamma_above_contfrac_def prefactor_exponent_def)
next
  assume l: "lg 1 = 0"
  show a: "gamma_above lg n 1 5000 = Some (Inr 0)"
    using underflow_5000[of lg, OF l] by (simp add: gamma_above_direct gamma_above_contfrac_def)
  show "gamma_below lg n 1 5000 = Some (Inr 1)"
    by (subst gamma_below.simps) (simp add: a one_minus_def)
qed

theorem gamma_above_underflow_witness:
  "gamma_above (\<lambda>_. 0) 3 1 5000 = Some (Inr 0) \<and> gamma_below (\<lambda>_. 0) 3 1 5000 = Some (Inr 1)"
  using gamma_above_underflow[of 1 5000 "\<lambda>_. 0" 3] by simp

text \<open>
  C4: the guard of the delegation in \<^verbatim>\<open>gamma_below\<close>, \<open>x > max(1, a)\<close>, and the guard
  of the delegation in \<^verbatim>\<open>gamma_above\<close>, \<open>x \<le> max(1, a)\<close>, exclude each other, so the
  callee of a delegation never delegates back: each function equals an expression in
  which neither function occurs, with at most one \<open>1 - ...\<close> around the series or the
  continued fraction. Both functions are total functions of the logic by the termination
  proof of their definition, which rests on the same exclusion.
\<close>

theorem gamma_delegation_once:
  "gamma_below lg n a x =
     (if \<not> 0 < a then Some (Inl AssertionError)
      else if \<not> 0 \<le> x then Some (Inl AssertionError)
      else if x = 0 then Some (Inr 0)
      else if x > max 1 a then one_minus (gamma_above_contfrac lg n a x)
      else gamma_below_series lg n a x)
   \<and> gamma_above lg n a x =
     (if \<not> 0 < a then Some (Inl AssertionError)
      else if \<not> 0 \<le> x then Some (Inl AssertionError)
      else if x \<le> max 1 a then
        one_minus (if x = 0 then Some (Inr 0) else gamma_below_series lg n a x)
      else gamma_above_contfrac lg n a x)"
proof
  show "gamma_below lg n a x =
     (if \<not> 0 < a then Some (Inl AssertionError)
      else if \<not> 0 \<le> x then Some (Inl AssertionError)
      else if x = 0 then Some (Inr 0)
      else if x > max 1 a then one_minus (gamma_above_contfrac lg n a x)
      else gamma_below_series lg n a x)"
    by (subst gamma_below.simps) (simp add: gamma_above_direct)
  show "gamma_above lg n a x =
     (if \<not> 0 < a then Some (Inl AssertionError)
      else if \<not> 0 \<le> x then Some (Inl AssertionError)
      else if x \<le> max 1 a then
        one_minus (if x = 0 then Some (Inr 0) else gamma_below_series lg n a x)
      else gamma_above_contfrac lg n a x)"
    by (subst gamma_above.simps) (simp add: gamma_below_direct)
qed

end
